theory Spec2Isabelle
  imports Main "HOL-Library.Word"
begin

unbundle bit_operations_syntax

text \<open>
  An action that keeps the issues of a tracker in step with the marked comments of a source
  tree: it extracts the comments, gives each a key made of its file and line, and sends a
  create, an update or a close request for each key. The definitions follow the source
  function by function; effects are explicit: the pattern object's \<open>lastIndex\<close>, the
  requests sent, and the error a run reports.
\<close>

section \<open>Strings of the program\<close>

text \<open>
  A JavaScript string is a sequence of UTF-16 code units. String literals of the source are
  written \<open>js ''...''\<close>; every literal of the source is ASCII.
\<close>

type_synonym jschar = "16 word"
type_synonym jsstring = "jschar list"

definition js :: "string \<Rightarrow> jsstring" where
  "js s = map of_char s"

text \<open>
  The pattern class \<open>.\<close> matches every code unit except the four line terminators
  LF, CR, U+2028 and U+2029; the class \<open>\s\<close> matches the white space and line terminator
  code units of ECMAScript.
\<close>

definition isLineTerminator :: "jschar \<Rightarrow> bool" where
  "isLineTerminator c = (c = 0x0A \<or> c = 0x0D \<or> c = 0x2028 \<or> c = 0x2029)"

definition isWhiteSpace :: "jschar \<Rightarrow> bool" where
  "isWhiteSpace c =
     (c = 0x09 \<or> c = 0x0A \<or> c = 0x0B \<or> c = 0x0C \<or> c = 0x0D \<or> c = 0x20 \<or> c = 0xA0
      \<or> c = 0x1680 \<or> (0x2000 \<le> c \<and> c \<le> 0x200A) \<or> c = 0x2028 \<or> c = 0x2029
      \<or> c = 0x202F \<or> c = 0x205F \<or> c = 0x3000 \<or> c = 0xFEFF)"

text \<open>\<open>s.split(sep)\<close> for a one-unit separator: never the empty list.\<close>

fun splitAcc :: "jschar \<Rightarrow> jsstring \<Rightarrow> jsstring \<Rightarrow> jsstring list" where
  "splitAcc sep acc [] = [rev acc]"
| "splitAcc sep acc (c # cs) =
     (if c = sep then rev acc # splitAcc sep [] cs else splitAcc sep (c # acc) cs)"

definition split :: "jschar \<Rightarrow> jsstring \<Rightarrow> jsstring list" where
  "split sep s = splitAcc sep [] s"

text \<open>\<open>xs.join(sep)\<close>.\<close>

fun join :: "jsstring \<Rightarrow> jsstring list \<Rightarrow> jsstring" where
  "join sep [] = []"
| "join sep [x] = x"
| "join sep (x # y # ys) = x @ sep @ join sep (y # ys)"

text \<open>
  \<open>xs.slice(a, b)\<close> for non-negative \<open>a\<close> and \<open>b\<close>: both ends are clamped to the length,
  and the result is empty when the clamped end is not after the clamped start.
\<close>

definition sliceArray :: "nat \<Rightarrow> nat \<Rightarrow> 'a list \<Rightarrow> 'a list" where
  "sliceArray a b xs =
     (let k = min a (length xs); final = min b (length xs)
      in take (final - k) (drop k xs))"

text \<open>The decimal numeral of a non-negative integer, as a template literal prints it.\<close>

definition digit :: "nat \<Rightarrow> jschar" where
  "digit d = of_nat (48 + d)"

fun decimal :: "nat \<Rightarrow> jsstring" where
  "decimal n = (if n < 10 then [digit n] else decimal (n div 10) @ [digit (n mod 10)])"

declare decimal.simps [simp del]

section \<open>Buffer: UTF-8 and base64\<close>

text \<open>
  \<open>Buffer.from(s)\<close> encodes a string as UTF-8: a surrogate pair becomes the four bytes of
  its code point, a lone surrogate the three bytes of U+FFFD.
\<close>

definition isHighSurrogate :: "jschar \<Rightarrow> bool" where
  "isHighSurrogate c = (0xD800 \<le> c \<and> c \<le> 0xDBFF)"

definition isLowSurrogate :: "jschar \<Rightarrow> bool" where
  "isLowSurrogate c = (0xDC00 \<le> c \<and> c \<le> 0xDFFF)"

definition utf8CodePoint :: "nat \<Rightarrow> 8 word list" where
  "utf8CodePoint n =
     (if n < 0x80 then [of_nat n]
      else if n < 0x800 then [of_nat (0xC0 + n div 64), of_nat (0x80 + n mod 64)]
      else if n < 0x10000 then
        [of_nat (0xE0 + n div 4096), of_nat (0x80 + n div 64 mod 64), of_nat (0x80 + n mod 64)]
      else
        [of_nat (0xF0 + n div 262144), of_nat (0x80 + n div 4096 mod 64),
         of_nat (0x80 + n div 64 mod 64), of_nat (0x80 + n mod 64)])"

fun utf8 :: "jsstring \<Rightarrow> 8 word list" where
  "utf8 [] = []"
| "utf8 [c] =
     (if isHighSurrogate c \<or> isLowSurrogate c then utf8CodePoint 0xFFFD
      else utf8CodePoint (unat c))"
| "utf8 (c # d # cs) =
     (if isHighSurrogate c \<and> isLowSurrogate d then
        utf8CodePoint (0x10000 + (unat c - 0xD800) * 1024 + (unat d - 0xDC00)) @ utf8 cs
      else if isHighSurrogate c \<or> isLowSurrogate c then utf8CodePoint 0xFFFD @ utf8 (d # cs)
      else utf8CodePoint (unat c) @ utf8 (d # cs))"

text \<open>\<open>buf.toString('base64')\<close>: the standard alphabet, padded with \<open>=\<close>.\<close>

definition base64Alphabet :: "jsstring" where
  "base64Alphabet = js ''ABCDEFGHIJKLMNOPQRSTUVWXYZabcdefghijklmnopqrstuvwxyz0123456789+/''"

definition sextet :: "nat \<Rightarrow> jschar" where
  "sextet n = base64Alphabet ! (n mod 64)"

fun base64 :: "8 word list \<Rightarrow> jsstring" where
  "base64 [] = []"
| "base64 [a] =
     [sextet (unat a div 4), sextet (unat a mod 4 * 16), 0x3D, 0x3D]"
| "base64 [a, b] =
     [sextet (unat a div 4), sextet (unat a mod 4 * 16 + unat b div 16),
      sextet (unat b mod 16 * 4), 0x3D]"
| "base64 (a # b # c # bs) =
     [sextet (unat a div 4), sextet (unat a mod 4 * 16 + unat b div 16),
      sextet (unat b mod 16 * 4 + unat c div 64), sextet (unat c mod 64)] @ base64 bs"

section \<open>The data model\<close>

record Comment =
  type :: jsstring
  content :: jsstring
  "file" :: jsstring
  line :: nat
  message :: jsstring
  key :: jsstring

text \<open>
  An issue as \<open>fetchExistingIssues\<close> returns it: the fields \<open>id\<close>, \<open>title\<close>, \<open>body\<close>
  and \<open>key\<close>.
\<close>

record GitHubIssue =
  ident :: nat
  ititle :: jsstring
  ibody :: jsstring
  ikey :: jsstring

section \<open>The pattern of extractComments\<close>

text \<open>
  \<open>new RegExp('(' + prefixes.join('|') + '):\\s*(.*)', 'g')\<close>. The prefixes go into the
  pattern unescaped. The embedding reads every prefix as literal text, which is what the
  pattern means for the prefixes that \<open>plainPrefix\<close> accepts, those without a pattern
  metacharacter. With a metacharacter in a prefix the source may match other text, or the
  constructor may throw a \<open>SyntaxError\<close>; the embedding does not cover those prefixes, and
  the statements about whole runs assume plain ones.
  An empty prefix list joins to the empty string, hence one empty alternative.
  An alternation takes the first alternative, in order, after which the colon matches;
  \<open>\s*\<close> and \<open>(.*)\<close> are greedy and what follows them cannot fail, so there is no
  backtracking into them.
\<close>

definition metaCharacters :: jsstring where
  "metaCharacters = 0x5C # js ''^$.*+?()[]{}|''"

definition plainPrefix :: "jsstring \<Rightarrow> bool" where
  "plainPrefix p = list_all (\<lambda>c. c \<notin> set metaCharacters) p"

definition alternatives :: "jsstring list \<Rightarrow> jsstring list" where
  "alternatives prefixes = (if prefixes = [] then [[]] else prefixes)"

fun matchAlternative :: "jsstring list \<Rightarrow> jsstring \<Rightarrow> (jsstring \<times> jsstring) option" where
  "matchAlternative [] s = None"
| "matchAlternative (p # ps) s =
     (if take (length p + 1) s = p @ [0x3A] then Some (p, drop (length p + 1) s)
      else matchAlternative ps s)"

record Match =
  group1 :: jsstring
  group2 :: jsstring
  endIndex :: nat

text \<open>The whole pattern tried at one position: \<open>s\<close> is the line from that position on.\<close>

definition matchHere :: "jsstring list \<Rightarrow> jsstring \<Rightarrow> nat \<Rightarrow> Match option" where
  "matchHere alts s pos =
     (case matchAlternative alts s of
        None \<Rightarrow> None
      | Some (p, rest) \<Rightarrow>
          (let ws = takeWhile isWhiteSpace rest;
               txt = takeWhile (\<lambda>c. \<not> isLineTerminator c) (dropWhile isWhiteSpace rest)
           in Some \<lparr>group1 = p, group2 = txt,
                     endIndex = pos + length p + 1 + length ws + length txt\<rparr>))"

text \<open>The leftmost position, from \<open>pos\<close> on, at which the pattern matches.\<close>

fun search :: "jsstring list \<Rightarrow> jsstring \<Rightarrow> nat \<Rightarrow> Match option" where
  "search alts [] pos = matchHere alts [] pos"
| "search alts (c # cs) pos =
     (case matchHere alts (c # cs) pos of
        Some m \<Rightarrow> Some m
      | None \<Rightarrow> search alts cs (Suc pos))"

text \<open>
  \<open>commentRegex.exec(line)\<close> of a global pattern: the search starts at \<open>lastIndex\<close>; a match
  moves \<open>lastIndex\<close> to its end, a failure resets it to 0. The second component is the new
  \<open>lastIndex\<close>.
\<close>

definition exec :: "jsstring list \<Rightarrow> jsstring \<Rightarrow> nat \<Rightarrow> Match option \<times> nat" where
  "exec alts ln lastIndex =
     (if length ln < lastIndex then (None, 0)
      else (case search alts (drop lastIndex ln) lastIndex of
              None \<Rightarrow> (None, 0)
            | Some m \<Rightarrow> (Some m, endIndex m)))"

lemma matchHere_endIndex:
  assumes "matchHere alts s pos = Some m"
  shows "pos < endIndex m \<and> endIndex m \<le> pos + length s"
proof -
  from assms obtain p rest where pr: "matchAlternative alts s = Some (p, rest)"
    and m: "m = \<lparr>group1 = p, group2 = takeWhile (\<lambda>c. \<not> isLineTerminator c) (dropWhile isWhiteSpace rest),
                 endIndex = pos + length p + 1 + length (takeWhile isWhiteSpace rest)
                   + length (takeWhile (\<lambda>c. \<not> isLineTerminator c) (dropWhile isWhiteSpace rest))\<rparr>"
    by (auto simp: matchHere_def Let_def split: option.splits)
  have "take (length p + 1) s = p @ [0x3A] \<and> rest = drop (length p + 1) s"
    using pr by (induction alts) (auto split: if_splits)
  then have len: "length p + 1 \<le> length s" and rest: "length rest = length s - (length p + 1)"
    by (metis length_take length_append length_Cons list.size(3) min.cobounded1 One_nat_def add.right_neutral add_Suc_right, simp)
  have "length (takeWhile isWhiteSpace rest)
          + length (takeWhile (\<lambda>c. \<not> isLineTerminator c) (dropWhile isWhiteSpace rest))
        \<le> length rest"
  proof -
    have "length (takeWhile (\<lambda>c. \<not> isLineTerminator c) (dropWhile isWhiteSpace rest))
            \<le> length (dropWhile isWhiteSpace rest)"
      by (rule length_takeWhile_le)
    moreover have "length (takeWhile isWhiteSpace rest) + length (dropWhile isWhiteSpace rest)
                     = length rest"
      by (metis length_append takeWhile_dropWhile_id)
    ultimately show ?thesis by linarith
  qed
  with len rest m show ?thesis by simp
qed

lemma search_endIndex:
  "search alts s pos = Some m \<Longrightarrow> pos < endIndex m \<and> endIndex m \<le> pos + length s"
proof (induction s arbitrary: pos)
  case Nil
  then show ?case using matchHere_endIndex [of alts "[]" pos m] by simp
next
  case (Cons c cs)
  show ?case
  proof (cases "matchHere alts (c # cs) pos")
    case None
    with Cons.prems have "search alts cs (Suc pos) = Some m" by simp
    from Cons.IH [OF this] show ?thesis by simp
  next
    case (Some m')
    with Cons.prems have "m' = m" by simp
    with Some matchHere_endIndex [of alts "c # cs" pos m] show ?thesis by simp
  qed
qed

lemma exec_Some:
  assumes "exec alts ln lastIndex = (Some m, li)"
  shows "lastIndex < li \<and> li \<le> length ln"
proof -
  from assms have le: "lastIndex \<le> length ln"
    and s: "search alts (drop lastIndex ln) lastIndex = Some m" and li: "li = endIndex m"
    by (auto simp: exec_def split: if_splits option.splits)
  from search_endIndex [OF s] le li show ?thesis by simp
qed

lemma exec_None: "exec alts ln lastIndex = (None, li) \<Longrightarrow> li = 0"
  by (auto simp: exec_def split: if_splits option.splits)

text \<open>
  The loop \<open>while ((match = commentRegex.exec(line)) !== null)\<close>: it collects the matches of
  one line and returns the \<open>lastIndex\<close> it leaves in the pattern object.
\<close>

function scanLine :: "jsstring list \<Rightarrow> jsstring \<Rightarrow> nat \<Rightarrow> Match list \<times> nat" where
  "scanLine alts ln lastIndex =
     (case exec alts ln lastIndex of
        (None, li) \<Rightarrow> ([], li)
      | (Some m, li) \<Rightarrow> (let (ms, final) = scanLine alts ln li in (m # ms, final)))"
  by pat_completeness auto
termination
proof (relation "measure (\<lambda>(alts, ln, lastIndex). Suc (length ln) - lastIndex)")
  show "wf (measure (\<lambda>(alts, ln, lastIndex). Suc (length ln) - lastIndex))" by simp
next
  fix alts :: "jsstring list" and ln :: jsstring and lastIndex :: nat
    and x :: "Match option" and li :: nat and m :: Match
  assume "(x, li) = exec alts ln lastIndex" and "x = Some m"
  then have "exec alts ln lastIndex = (Some m, li)" by simp
  from exec_Some [OF this] have "Suc (length ln) - li < Suc (length ln) - lastIndex"
    by linarith
  then show "((alts, ln, li), alts, ln, lastIndex)
          \<in> measure (\<lambda>(alts, ln, lastIndex). Suc (length ln) - lastIndex)"
    by simp
qed

declare scanLine.simps [simp del]

section \<open>extractComments\<close>

text \<open>
  The function is the same in both source files; the later file adds the marker line to the
  description, \<open>parseIssueKey\<close>, and the requests to the tracker, and is the one embedded
  here.
\<close>

text \<open>
  \<open>contextStart = Math.max(index - 5, 0)\<close>, \<open>contextEnd = Math.min(index + 5, lines.length - 1)\<close>
  and \<open>lines.slice(contextStart, contextEnd + 1)\<close>; the subtractions are those of integers.
\<close>

definition contextStart :: "nat \<Rightarrow> nat" where
  "contextStart index = nat (max (int index - 5) 0)"

definition contextEnd :: "'a list \<Rightarrow> nat \<Rightarrow> int" where
  "contextEnd lines index = min (int index + 5) (int (length lines) - 1)"

definition contextWindow :: "'a list \<Rightarrow> nat \<Rightarrow> 'a list" where
  "contextWindow lines index =
     sliceArray (contextStart index) (nat (contextEnd lines index + 1)) lines"

definition makeKey :: "jsstring \<Rightarrow> nat \<Rightarrow> jsstring" where
  "makeKey filePath index = base64 (utf8 (filePath @ js '':'' @ decimal (index + 1)))"

text \<open>The object pushed for one match of the line at \<open>index\<close>.\<close>

definition makeComment :: "jsstring list \<Rightarrow> jsstring \<Rightarrow> nat \<Rightarrow> Match \<Rightarrow> Comment" where
  "makeComment lines filePath index m =
     \<lparr>type = group1 m, content = group2 m, file = filePath, line = index + 1,
      message = join [0x0A] (contextWindow lines index),
      key = makeKey filePath index\<rparr>"

text \<open>
  One step of \<open>lines.forEach\<close>: the state is the \<open>lastIndex\<close> of the one pattern object and
  the array \<open>comments\<close>.
\<close>

definition forEachStep ::
  "jsstring list \<Rightarrow> jsstring list \<Rightarrow> jsstring \<Rightarrow> nat \<times> Comment list \<Rightarrow> nat \<times> jsstring
     \<Rightarrow> nat \<times> Comment list" where
  "forEachStep alts lines filePath st il =
     (case scanLine alts (snd il) (fst st) of
        (ms, li) \<Rightarrow> (li, snd st @ map (makeComment lines filePath (fst il)) ms))"

definition extractComments :: "jsstring \<Rightarrow> jsstring \<Rightarrow> jsstring list \<Rightarrow> Comment list" where
  "extractComments fileContent filePath prefixes =
     (let alts = alternatives prefixes;
          lines = split 0x0A fileContent
      in snd (foldl (forEachStep alts lines filePath) (0, []) (enumerate 0 lines)))"

section \<open>Issue text and the key marker\<close>

text \<open>\<open>path.basename\<close> (POSIX): trailing slashes are dropped, then the last segment is taken.\<close>

definition basename :: "jsstring \<Rightarrow> jsstring" where
  "basename p = rev (takeWhile (\<lambda>c. c \<noteq> 0x2F) (dropWhile (\<lambda>c. c = 0x2F) (rev p)))"

text \<open>\<open>generateIssueContent\<close> returns the pair of \<open>title\<close> and \<open>description\<close>.\<close>

definition generateIssueContent :: "Comment \<Rightarrow> jsstring \<times> jsstring" where
  "generateIssueContent comment =
     (type comment @ js '' in '' @ basename (file comment) @ js '' at line ''
        @ decimal (line comment),
      js ''Found a '' @ type comment @ js '' comment:'' @ [0x0A, 0x0A] @ js ''> ''
        @ content comment @ [0x0A, 0x0A] @ js ''Context:'' @ [0x0A] @ message comment
        @ [0x0A, 0x0A]
        @ js ''This issue was generated automatically from a source code comment.''
        @ [0x0A, 0x0A] @ js ''=== DO NOT REMOVE ==='' @ [0x0A] @ js ''Key: '' @ key comment)"

text \<open>The description up to the end of the marker line.\<close>

definition beforeKey :: "Comment \<Rightarrow> jsstring" where
  "beforeKey comment =
     js ''Found a '' @ type comment @ js '' comment:'' @ [0x0A, 0x0A] @ js ''> ''
        @ content comment @ [0x0A, 0x0A] @ js ''Context:'' @ [0x0A] @ message comment
        @ [0x0A, 0x0A]
        @ js ''This issue was generated automatically from a source code comment.''
        @ [0x0A, 0x0A] @ js ''=== DO NOT REMOVE ===''"

text \<open>
  \<open>body.match(/Key: (.*)/)\<close>: the leftmost occurrence of \<open>Key: \<close> anywhere in the body, and
  after it the text up to the next line terminator.
\<close>

fun matchKey :: "jsstring \<Rightarrow> jsstring option" where
  "matchKey [] = None"
| "matchKey (c # cs) =
     (if take 5 (c # cs) = js ''Key: ''
      then Some (takeWhile (\<lambda>c. \<not> isLineTerminator c) (drop 5 (c # cs)))
      else matchKey cs)"

definition parseIssueKey :: "jsstring \<Rightarrow> jsstring" where
  "parseIssueKey body = (case matchKey body of Some k \<Rightarrow> k | None \<Rightarrow> [])"

section \<open>The run\<close>

text \<open>
  What the tracker's list request answers for one issue, and the three requests that change
  the tracker: POST (create), PATCH with title and body (update), PATCH with
  \<open>state: 'closed'\<close> (close).
\<close>

record ApiIssue =
  number :: nat
  apiTitle :: jsstring
  apiBody :: jsstring

datatype Request =
    CreateIssue jsstring jsstring
  | UpdateIssue nat jsstring jsstring
  | CloseIssue nat

text \<open>A thrown \<open>Error\<close>, with its message.\<close>

datatype Error = Error jsstring

text \<open>
  Everything \<open>run\<close> reads from outside: the input \<open>comment-prefixes\<close>, the answer of the list
  request, the result of \<open>listAllSourceFiles\<close>, the file system, and for each changing
  request whether it throws, given the requests sent before it.
\<close>

record Env =
  commentPrefixes :: jsstring
  listIssues :: "Error + ApiIssue list"
  sourceFiles :: "Error + jsstring list"
  readFile :: "jsstring \<Rightarrow> Error + jsstring"
  request :: "Request list \<Rightarrow> Request \<Rightarrow> Error option"

text \<open>\<open>s.trim()\<close> strips white space and line terminators at both ends.\<close>

definition trim :: "jsstring \<Rightarrow> jsstring" where
  "trim s = rev (dropWhile isWhiteSpace (rev (dropWhile isWhiteSpace s)))"

definition toGitHubIssue :: "ApiIssue \<Rightarrow> GitHubIssue" where
  "toGitHubIssue issue =
     \<lparr>ident = number issue, ititle = apiTitle issue, ibody = apiBody issue,
      ikey = parseIssueKey (apiBody issue)\<rparr>"

text \<open>\<open>fetchExistingIssues\<close>.\<close>

definition fetchExistingIssues :: "Env \<Rightarrow> Error + GitHubIssue list" where
  "fetchExistingIssues env =
     (case listIssues env of Inl e \<Rightarrow> Inl e | Inr issues \<Rightarrow> Inr (map toGitHubIssue issues))"

text \<open>The loop over \<open>sourceFiles\<close>; \<open>found\<close> is \<open>foundComments\<close> so far.\<close>

fun readAll ::
  "(jsstring \<Rightarrow> Error + jsstring) \<Rightarrow> jsstring list \<Rightarrow> Comment list \<Rightarrow> jsstring list
     \<Rightarrow> Error + Comment list" where
  "readAll rd prefixes found [] = Inr found"
| "readAll rd prefixes found (f # fs) =
     (case rd f of
        Inl e \<Rightarrow> Inl e
      | Inr fileContent \<Rightarrow>
          readAll rd prefixes (found @ extractComments fileContent f prefixes) fs)"

text \<open>
  The request sent for one comment: an update of the first existing issue with the comment's
  key, a create when there is none.
\<close>

definition requestFor :: "GitHubIssue list \<Rightarrow> Comment \<Rightarrow> Request" where
  "requestFor existingIssues comment =
     (case generateIssueContent comment of
        (title, description) \<Rightarrow>
          (case find (\<lambda>issue. ikey issue = key comment) existingIssues of
             Some existingIssue \<Rightarrow> UpdateIssue (ident existingIssue) title description
           | None \<Rightarrow> CreateIssue title description))"

text \<open>
  The loop over \<open>foundComments\<close>. The result is the requests sent so far, in order, and the
  error that ended the loop, if one did; a request that throws is the last one sent.
\<close>

fun processComments ::
  "(Request list \<Rightarrow> Request \<Rightarrow> Error option) \<Rightarrow> GitHubIssue list \<Rightarrow> Request list
     \<Rightarrow> Comment list \<Rightarrow> Request list \<times> Error option" where
  "processComments req existingIssues sent [] = (sent, None)"
| "processComments req existingIssues sent (c # cs) =
     (let r = requestFor existingIssues c
      in case req sent r of
           Some e \<Rightarrow> (sent @ [r], Some e)
         | None \<Rightarrow> processComments req existingIssues (sent @ [r]) cs)"

definition issuesToClose :: "GitHubIssue list \<Rightarrow> Comment list \<Rightarrow> GitHubIssue list" where
  "issuesToClose existingIssues foundComments =
     filter (\<lambda>issue. \<not> list_ex (\<lambda>comment. key comment = ikey issue) foundComments)
       existingIssues"

text \<open>The loop over \<open>issuesToClose\<close>.\<close>

fun closeIssues ::
  "(Request list \<Rightarrow> Request \<Rightarrow> Error option) \<Rightarrow> Request list \<Rightarrow> GitHubIssue list
     \<Rightarrow> Request list \<times> Error option" where
  "closeIssues req sent [] = (sent, None)"
| "closeIssues req sent (i # is) =
     (let r = CloseIssue (ident i)
      in case req sent r of
           Some e \<Rightarrow> (sent @ [r], Some e)
         | None \<Rightarrow> closeIssues req (sent @ [r]) is)"

text \<open>
  \<open>run\<close>: the one \<open>try\<close> block around everything, whose \<open>catch\<close> hands the message of the
  error to \<open>core.setFailed\<close>. The result is the changing requests sent, in order, and the
  error reported, if any.
\<close>

definition run :: "Env \<Rightarrow> Request list \<times> Error option" where
  "run env =
     (let prefixes = map trim (split 0x2C (commentPrefixes env))
      in case fetchExistingIssues env of
           Inl e \<Rightarrow> ([], Some e)
         | Inr existingIssues \<Rightarrow>
             (case sourceFiles env of
                Inl e \<Rightarrow> ([], Some e)
              | Inr files \<Rightarrow>
                  (case readAll (readFile env) prefixes [] files of
                     Inl e \<Rightarrow> ([], Some e)
                   | Inr foundComments \<Rightarrow>
                       (case processComments (request env) existingIssues [] foundComments of
                          (sent, Some e) \<Rightarrow> (sent, Some e)
                        | (sent, None) \<Rightarrow>
                            closeIssues (request env) sent
                              (issuesToClose existingIssues foundComments)))))"

section \<open>The requests of a run that meets no error\<close>




text \<open>All requests of the two loops, in the order in which \<open>run\<close> sends them.\<close>

definition plannedRequests :: "GitHubIssue list \<Rightarrow> Comment list \<Rightarrow> Request list" where
  "plannedRequests existingIssues foundComments =
     map (requestFor existingIssues) foundComments
       @ map (\<lambda>issue. CloseIssue (ident issue)) (issuesToClose existingIssues foundComments)"

text \<open>The shape both loops share: send the requests in order until one throws.\<close>

fun sendAll ::
  "(Request list \<Rightarrow> Request \<Rightarrow> Error option) \<Rightarrow> Request list \<Rightarrow> Request list
     \<Rightarrow> Request list \<times> Error option" where
  "sendAll req sent [] = (sent, None)"
| "sendAll req sent (r # rs) =
     (case req sent r of
        Some e \<Rightarrow> (sent @ [r], Some e)
      | None \<Rightarrow> sendAll req (sent @ [r]) rs)"

section \<open>The tracker\<close>

text \<open>
  Modelled from the spec: the issue tracker is a service outside the repository. It holds
  issues, open or closed; a create adds an open issue under an identifier the tracker
  assigns, an update replaces the title and body of the issue with the given identifier, a
  close closes it, and the list request answers with the open issues.
\<close>

record Tracker =
  issues :: "(ApiIssue \<times> bool) list"
  nextNumber :: nat

fun applyRequest :: "Tracker \<Rightarrow> Request \<Rightarrow> Tracker" where
  "applyRequest t (CreateIssue title description) =
     t\<lparr>issues := issues t
          @ [(\<lparr>number = nextNumber t, apiTitle = title, apiBody = description\<rparr>, True)],
       nextNumber := nextNumber t + 1\<rparr>"
| "applyRequest t (UpdateIssue n title description) =
     t\<lparr>issues := map (\<lambda>(i, isOpen).
          if number i = n then (i\<lparr>apiTitle := title, apiBody := description\<rparr>, isOpen)
          else (i, isOpen)) (issues t)\<rparr>"
| "applyRequest t (CloseIssue n) =
     t\<lparr>issues := map (\<lambda>(i, isOpen). if number i = n then (i, False) else (i, isOpen))
          (issues t)\<rparr>"

definition openIssues :: "Tracker \<Rightarrow> ApiIssue list" where
  "openIssues t = map fst (filter snd (issues t))"

text \<open>
  A run against a tracker and a source tree given as paths with their contents, in which no
  request fails: the requests sent and the tracker afterwards.
\<close>

definition trackerEnv :: "Tracker \<Rightarrow> jsstring \<Rightarrow> (jsstring \<times> jsstring) list \<Rightarrow> Env" where
  "trackerEnv t prefixInput tree =
     \<lparr>commentPrefixes = prefixInput,
      listIssues = Inr (openIssues t),
      sourceFiles = Inr (map fst tree),
      readFile = (\<lambda>p. case map_of tree p of
                         Some fileContent \<Rightarrow> Inr fileContent
                       | None \<Rightarrow> Inl (Error (js ''ENOENT''))),
      request = (\<lambda>sent r. None)\<rparr>"

definition runOn ::
  "Tracker \<Rightarrow> jsstring \<Rightarrow> (jsstring \<times> jsstring) list \<Rightarrow> Request list \<times> Tracker" where
  "runOn t prefixInput tree =
     (let sent = fst (run (trackerEnv t prefixInput tree))
      in (sent, foldl applyRequest t sent))"

section \<open>Extraction without a pattern object\<close>

text \<open>
  The scanning function the specification asks for: the comments of one line, found by a
  scan that starts at position 0 and keeps nothing afterwards.
\<close>

definition commentsOfLine ::
  "jsstring list \<Rightarrow> jsstring list \<Rightarrow> jsstring \<Rightarrow> nat \<times> jsstring \<Rightarrow> Comment list" where
  "commentsOfLine alts lines filePath il =
     map (makeComment lines filePath (fst il)) (fst (scanLine alts (snd il) 0))"

section \<open>Sample inputs\<close>

definition sampleFile :: jsstring where
  "sampleFile = js ''let a = 1'' @ [0x0A] @ js ''// TODO: b''"

definition sampleComment :: Comment where
  "sampleComment =
     \<lparr>type = js ''TODO'', content = js ''b'', file = js ''f.ts'', line = 2,
      message = js ''let a = 1'' @ [0x0A] @ js ''// TODO: b'', key = js ''Zi50czoy''\<rparr>"

definition sampleForeignIssue :: GitHubIssue where
  "sampleForeignIssue =
     toGitHubIssue \<lparr>number = 7, apiTitle = js ''Crash on start'', apiBody = js ''It crashes.''\<rparr>"



definition sampleFile2 :: jsstring where
  "sampleFile2 = js ''// TODO: a'' @ [0x0A] @ js ''// FIXME: b''"

definition failingEnv :: Env where
  "failingEnv =
     \<lparr>commentPrefixes = js ''TODO, FIXME'',
      listIssues = Inr [\<lparr>number = 7, apiTitle = js ''Crash on start'', apiBody = js ''It crashes.''\<rparr>],
      sourceFiles = Inr [js ''g.ts''],
      readFile = (\<lambda>p. if p = js ''g.ts'' then Inr sampleFile2 else Inl (Error (js ''ENOENT''))),
      request = (\<lambda>sent r. if sent = [] then Some (Error (js ''Bad credentials'')) else None)\<rparr>"

definition unreadableEnv :: Env where
  "unreadableEnv =
     \<lparr>commentPrefixes = js ''TODO, FIXME'',
      listIssues = Inr [\<lparr>number = 7, apiTitle = js ''Crash on start'', apiBody = js ''It crashes.''\<rparr>],
      sourceFiles = Inr [js ''missing.ts'', js ''g.ts''],
      readFile = (\<lambda>p. if p = js ''g.ts'' then Inr sampleFile2 else Inl (Error (js ''ENOENT''))),
      request = (\<lambda>sent r. None)\<rparr>"

definition sampleTodo :: Comment where
  "sampleTodo =
     \<lparr>type = js ''TODO'', content = js ''a'', file = js ''g.ts'', line = 1,
      message = js ''// TODO: a'' @ [0x0A] @ js ''// FIXME: b'', key = js ''Zy50czox''\<rparr>"

definition sampleFixme :: Comment where
  "sampleFixme =
     \<lparr>type = js ''FIXME'', content = js ''b'', file = js ''g.ts'', line = 2,
      message = js ''// TODO: a'' @ [0x0A] @ js ''// FIXME: b'', key = js ''Zy50czoy''\<rparr>"

definition keyMentionFile :: jsstring where
  "keyMentionFile = js ''// TODO: rename Key: field''"

definition keyMentionComment :: Comment where
  "keyMentionComment =
     \<lparr>type = js ''TODO'', content = js ''rename Key: field'', file = js ''h.ts'', line = 1,
      message = js ''// TODO: rename Key: field'', key = js ''aC50czox''\<rparr>"

section \<open>Properties of extraction\<close>

lemma scanLine_lastIndex: "snd (scanLine alts ln lastIndex) = 0"
proof (induction alts ln lastIndex rule: scanLine.induct)
  case (1 alts ln lastIndex)
  show ?case
  proof (cases "exec alts ln lastIndex")
    case (Pair r li)
    show ?thesis
    proof (cases r)
      case None
      with Pair exec_None [of alts ln lastIndex li] show ?thesis
        by (simp add: scanLine.simps [of alts ln lastIndex])
    next
      case (Some m)
      with Pair have "snd (scanLine alts ln li) = 0"
        by (intro "1.IH") simp_all
      with Pair Some show ?thesis
        by (cases "scanLine alts ln li") (simp add: scanLine.simps [of alts ln lastIndex])
    qed
  qed
qed

lemma forEachStep_zero:
  "forEachStep alts lines filePath (0, acc) il = (0, acc @ commentsOfLine alts lines filePath il)"
proof (cases "scanLine alts (snd il) 0")
  case (Pair ms li)
  with scanLine_lastIndex [of alts "snd il" 0] have "li = 0" by simp
  with Pair show ?thesis by (simp add: forEachStep_def commentsOfLine_def)
qed

lemma foldl_forEachStep:
  "foldl (forEachStep alts lines filePath) (0, acc) ils =
     (0, acc @ concat (map (commentsOfLine alts lines filePath) ils))"
  by (induction ils arbitrary: acc) (simp_all add: forEachStep_zero)

lemma extractComments_concat:
  "extractComments fileContent filePath prefixes =
     concat (map (commentsOfLine (alternatives prefixes) (split 0x0A fileContent) filePath)
       (enumerate 0 (split 0x0A fileContent)))"
  by (simp add: extractComments_def Let_def foldl_forEachStep)

lemma extractComments_elem:
  assumes "c \<in> set (extractComments fileContent filePath prefixes)"
  shows "\<exists>i m. i < length (split 0x0A fileContent)
           \<and> c = makeComment (split 0x0A fileContent) filePath i m"
proof -
  from assms obtain il where il: "il \<in> set (enumerate 0 (split 0x0A fileContent))"
    and c: "c \<in> set (commentsOfLine (alternatives prefixes) (split 0x0A fileContent) filePath il)"
    by (auto simp: extractComments_concat)
  from il have "fst il < length (split 0x0A fileContent)"
    by (simp add: in_set_enumerate_eq)
  with c show ?thesis by (auto simp: commentsOfLine_def)
qed

lemma sliceArray_nth:
  assumes "a \<le> b" "b \<le> length xs"
  shows "sliceArray a b xs = map (\<lambda>j. xs ! j) [a..<b]"
proof -
  have "sliceArray a b xs = take (b - a) (drop a xs)"
    using assms by (simp add: sliceArray_def Let_def min_def)
  also have "\<dots> = map (\<lambda>j. xs ! j) [a..<b]"
    using assms by (auto simp: list_eq_iff_nth_eq)
  finally show ?thesis .
qed

lemma contextWindow_nth:
  assumes "i < length lines"
  shows "contextWindow lines i = map (\<lambda>j. lines ! j) [i - 5..<min (i + 6) (length lines)]"
proof -
  have s: "contextStart i = i - 5" by (simp add: contextStart_def)
  have e: "nat (contextEnd lines i + 1) = min (i + 6) (length lines)"
    using assms unfolding contextEnd_def by linarith
  have "i - 5 \<le> min (i + 6) (length lines)" using assms by linarith
  then show ?thesis
    unfolding contextWindow_def s e by (intro sliceArray_nth) simp_all
qed

lemma contextWindow_length:
  assumes "i < length lines"
  shows "length (contextWindow lines i) = min i 5 + 1 + min (length lines - 1 - i) 5"
proof -
  have "length (contextWindow lines i) = min (i + 6) (length lines) - (i - 5)"
    using assms by (simp add: contextWindow_nth)
  also have "\<dots> = min i 5 + 1 + min (length lines - 1 - i) 5"
    using assms by linarith
  finally show ?thesis .
qed

text \<open>
  C8. Every comment that \<open>extractComments\<close> returns sits on a line with a 0-based index
  \<open>i\<close> below the number \<open>N\<close> of lines, and its \<open>message\<close> joins the lines with indices
  from \<open>max (i - 5) 0\<close> up to \<open>min (i + 5) (N - 1)\<close>, each of them an index of the file.
  The window has \<open>min i 5 + 1 + min (N - 1 - i) 5\<close> lines, at least 1 and at most 11.
\<close>

theorem context_window_bounds:
  assumes "c \<in> set (extractComments fileContent filePath prefixes)"
  shows "\<exists>i. i < length (split 0x0A fileContent) \<and> line c = i + 1
           \<and> message c = join [0x0A] (contextWindow (split 0x0A fileContent) i)
           \<and> contextWindow (split 0x0A fileContent) i
               = map (\<lambda>j. split 0x0A fileContent ! j)
                   [i - 5..<min (i + 6) (length (split 0x0A fileContent))]
           \<and> length (contextWindow (split 0x0A fileContent) i)
               = min i 5 + 1 + min (length (split 0x0A fileContent) - 1 - i) 5
           \<and> 1 \<le> length (contextWindow (split 0x0A fileContent) i)
           \<and> length (contextWindow (split 0x0A fileContent) i) \<le> 11"
proof -
  from extractComments_elem [OF assms] obtain i m
    where i: "i < length (split 0x0A fileContent)"
      and c: "c = makeComment (split 0x0A fileContent) filePath i m"
    by blast
  have "line c = i + 1" and "message c = join [0x0A] (contextWindow (split 0x0A fileContent) i)"
    by (simp_all add: c makeComment_def js_def)
  moreover note contextWindow_nth [OF i] contextWindow_length [OF i]
  moreover have "min i 5 + 1 + min (length (split 0x0A fileContent) - 1 - i) 5 \<le> 11"
    and "1 \<le> min i 5 + 1 + min (length (split 0x0A fileContent) - 1 - i) 5"
    by simp_all
  ultimately show ?thesis using i by auto
qed

theorem context_window_bounds_witness:
  "sampleComment \<in> set (extractComments sampleFile (js ''f.ts'') [js ''TODO''])
   \<and> (\<exists>i. i < length (split 0x0A sampleFile) \<and> line sampleComment = i + 1
           \<and> message sampleComment = join [0x0A] (contextWindow (split 0x0A sampleFile) i)
           \<and> contextWindow (split 0x0A sampleFile) i
               = map (\<lambda>j. split 0x0A sampleFile ! j)
                   [i - 5..<min (i + 6) (length (split 0x0A sampleFile))]
           \<and> length (contextWindow (split 0x0A sampleFile) i)
               = min i 5 + 1 + min (length (split 0x0A sampleFile) - 1 - i) 5
           \<and> 1 \<le> length (contextWindow (split 0x0A sampleFile) i)
           \<and> length (contextWindow (split 0x0A sampleFile) i) \<le> 11)"
proof -
  have h: "sampleComment \<in> set (extractComments sampleFile (js ''f.ts'') [js ''TODO''])"
    by code_simp
  from h context_window_bounds [OF h] show ?thesis by (rule conjI)
qed

text \<open>
  C9. \<open>extractComments\<close> is a function of its three arguments: the pattern object is made
  anew in every call, so its \<open>lastIndex\<close> starts at 0 for every file. Inside a call the
  loop over one line always leaves \<open>lastIndex\<close> at 0, from whatever position it started,
  so every line is scanned from position 0, the position is 0 again after the last line, and
  the result is the concatenation, in line order, of what each line yields on its own.
\<close>

theorem extractComments_stateless:
  "snd (scanLine (alternatives prefixes) ln lastIndex) = 0
   \<and> fst (foldl (forEachStep (alternatives prefixes) (split 0x0A fileContent) filePath) (0, [])
           (enumerate 0 (split 0x0A fileContent))) = 0
   \<and> extractComments fileContent filePath prefixes
       = concat (map (commentsOfLine (alternatives prefixes) (split 0x0A fileContent) filePath)
           (enumerate 0 (split 0x0A fileContent)))"
  by (simp add: scanLine_lastIndex foldl_forEachStep extractComments_concat)

theorem extractComments_stateless_witness:
  "snd (scanLine (alternatives [js ''TODO'']) (js ''// TODO: b'') 3) = 0
   \<and> fst (foldl (forEachStep (alternatives [js ''TODO'']) (split 0x0A sampleFile) (js ''f.ts''))
           (0, []) (enumerate 0 (split 0x0A sampleFile))) = 0
   \<and> extractComments sampleFile (js ''f.ts'') [js ''TODO'']
       = concat (map (commentsOfLine (alternatives [js ''TODO'']) (split 0x0A sampleFile)
           (js ''f.ts'')) (enumerate 0 (split 0x0A sampleFile)))"
  by (rule extractComments_stateless)

lemma utf8CodePoint_not_Nil: "utf8CodePoint n \<noteq> []"
  by (simp add: utf8CodePoint_def)

lemma utf8_Nil_iff: "utf8 s = [] \<longleftrightarrow> s = []"
  by (cases s rule: utf8.cases) (simp_all add: utf8CodePoint_not_Nil)

lemma base64_Nil_iff: "base64 bs = [] \<longleftrightarrow> bs = []"
  by (cases bs rule: base64.cases) simp_all

lemma makeKey_not_Nil: "makeKey filePath index \<noteq> []"
  by (simp add: makeKey_def base64_Nil_iff utf8_Nil_iff js_def)

text \<open>
  C10. Every comment that \<open>extractComments\<close> returns has a line number of at least 1 and
  as key the base64 text of the non-empty string \<open>filePath:line\<close>, which is not empty. So its
  key differs from the key of any issue whose key is the empty string, and the search for an
  existing issue with the comment's key never returns such an issue.
\<close>

theorem extracted_key_nonempty:
  assumes "c \<in> set (extractComments fileContent filePath prefixes)"
    and "ikey issue = []"
  shows "1 \<le> line c
         \<and> key c = base64 (utf8 (filePath @ js '':'' @ decimal (line c)))
         \<and> filePath @ js '':'' @ decimal (line c) \<noteq> []
         \<and> key c \<noteq> []
         \<and> key c \<noteq> ikey issue
         \<and> find (\<lambda>i. ikey i = key c) existingIssues \<noteq> Some issue"
proof -
  from extractComments_elem [OF assms(1)] obtain i m
    where c: "c = makeComment (split 0x0A fileContent) filePath i m"
    by blast
  have l: "line c = i + 1" and k: "key c = makeKey filePath i"
    by (simp_all add: c makeComment_def)
  have ne: "key c \<noteq> []" by (simp add: k makeKey_not_Nil)
  have "find (\<lambda>i. ikey i = key c) existingIssues \<noteq> Some issue"
  proof
    assume "find (\<lambda>i. ikey i = key c) existingIssues = Some issue"
    then have "ikey issue = key c" by (auto simp: find_Some_iff)
    with assms(2) ne show False by simp
  qed
  with ne assms(2) l k show ?thesis by (simp add: makeKey_def js_def)
qed

theorem extracted_key_nonempty_witness:
  "sampleComment \<in> set (extractComments sampleFile (js ''f.ts'') [js ''TODO''])
   \<and> ikey sampleForeignIssue = []
   \<and> 1 \<le> line sampleComment
   \<and> key sampleComment = base64 (utf8 (js ''f.ts'' @ js '':'' @ decimal (line sampleComment)))
   \<and> js ''f.ts'' @ js '':'' @ decimal (line sampleComment) \<noteq> []
   \<and> key sampleComment \<noteq> []
   \<and> key sampleComment \<noteq> ikey sampleForeignIssue
   \<and> find (\<lambda>i. ikey i = key sampleComment) [sampleForeignIssue] \<noteq> Some sampleForeignIssue"
proof -
  have h: "sampleComment \<in> set (extractComments sampleFile (js ''f.ts'') [js ''TODO''])"
    by code_simp
  have e: "ikey sampleForeignIssue = []"
    by code_simp
  from h e extracted_key_nonempty [OF h e, of "[sampleForeignIssue]"] show ?thesis
    by blast
qed

text \<open>
  A line without CR, U+2028 and U+2029 yields at most one match: a match runs to the end of
  the line, and at the end of the line the pattern finds nothing.
\<close>

lemma matchAlternative_Some:
  "matchAlternative alts s = Some (p, rest) \<Longrightarrow> s = p @ [0x3A] @ rest"
proof (induction alts)
  case Nil
  then show ?case by simp
next
  case (Cons a alts)
  show ?case
  proof (cases "take (length a + 1) s = a @ [0x3A]")
    case True
    with Cons.prems have "p = a" "rest = drop (length a + 1) s" by auto
    with True append_take_drop_id [of "length a + 1" s] show ?thesis by simp
  next
    case False
    with Cons show ?thesis by simp
  qed
qed

lemma matchAlternative_Nil: "matchAlternative alts [] = None"
  by (induction alts) simp_all

lemma takeWhile_all: "(\<And>x. x \<in> set xs \<Longrightarrow> P x) \<Longrightarrow> takeWhile P xs = xs"
  by (induction xs) simp_all

lemma matchHere_plain:
  assumes "matchHere alts s pos = Some m" and "\<And>c. c \<in> set s \<Longrightarrow> \<not> isLineTerminator c"
  shows "endIndex m = pos + length s"
proof -
  from assms(1) obtain p rest where pr: "matchAlternative alts s = Some (p, rest)"
    and m: "endIndex m = pos + length p + 1 + length (takeWhile isWhiteSpace rest)
              + length (takeWhile (\<lambda>c. \<not> isLineTerminator c) (dropWhile isWhiteSpace rest))"
    by (auto simp: matchHere_def Let_def split: option.splits)
  from matchAlternative_Some [OF pr] have s: "s = p @ [0x3A] @ rest" .
  have tw: "takeWhile (\<lambda>c. \<not> isLineTerminator c) (dropWhile isWhiteSpace rest)
          = dropWhile isWhiteSpace rest"
  proof (rule takeWhile_all)
    fix x assume "x \<in> set (dropWhile isWhiteSpace rest)"
    then have "x \<in> set rest" by (rule set_dropWhileD)
    with s have "x \<in> set s" by simp
    then show "\<not> isLineTerminator x" by (rule assms(2))
  qed
  have "length (takeWhile isWhiteSpace rest) + length (dropWhile isWhiteSpace rest)
          = length rest"
    by (metis length_append takeWhile_dropWhile_id)
  moreover have "length s = length p + 1 + length rest"
    by (subst s) simp
  moreover from m have "endIndex m = pos + length p + 1 + length (takeWhile isWhiteSpace rest)
              + length (dropWhile isWhiteSpace rest)"
    unfolding tw .
  ultimately show ?thesis by linarith
qed

lemma search_plain:
  "search alts s pos = Some m \<Longrightarrow> (\<And>c. c \<in> set s \<Longrightarrow> \<not> isLineTerminator c)
     \<Longrightarrow> endIndex m = pos + length s"
proof (induction s arbitrary: pos)
  case Nil
  then show ?case by (simp add: matchHere_def matchAlternative_Nil)
next
  case (Cons c cs)
  show ?case
  proof (cases "matchHere alts (c # cs) pos")
    case None
    with Cons.prems(1) have "search alts cs (Suc pos) = Some m" by simp
    from Cons.IH [OF this] Cons.prems(2) show ?thesis by simp
  next
    case (Some m')
    with Cons.prems(1) have "matchHere alts (c # cs) pos = Some m" by simp
    from matchHere_plain [OF this] Cons.prems(2) show ?thesis by blast
  qed
qed

lemma exec_at_end: "exec alts ln (length ln) = (None, 0)"
  by (simp add: exec_def matchHere_def matchAlternative_Nil)

lemma scanLine_plain:
  assumes "\<And>c. c \<in> set ln \<Longrightarrow> \<not> isLineTerminator c"
  shows "length (fst (scanLine alts ln lastIndex)) \<le> 1"
proof (cases "exec alts ln lastIndex")
  case (Pair r li)
  show ?thesis
  proof (cases r)
    case None
    with Pair show ?thesis by (simp add: scanLine.simps [of alts ln lastIndex])
  next
    case (Some m)
    with Pair have le: "lastIndex \<le> length ln"
      and s: "search alts (drop lastIndex ln) lastIndex = Some m" and li: "li = endIndex m"
      by (auto simp: exec_def split: if_splits option.splits)
    have "endIndex m = lastIndex + length (drop lastIndex ln)"
    proof (rule search_plain [OF s])
      fix c assume "c \<in> set (drop lastIndex ln)"
      then have "c \<in> set ln" by (rule in_set_dropD)
      then show "\<not> isLineTerminator c" by (rule assms)
    qed
    with le li have "li = length ln" by simp
    then have "scanLine alts ln li = ([], 0)"
      by (simp add: scanLine.simps [of alts ln "length ln"] exec_at_end)
    with Pair Some show ?thesis by (simp add: scanLine.simps [of alts ln lastIndex])
  qed
qed

lemma commentsOfLine_plain:
  assumes "\<And>c. c \<in> set (snd il) \<Longrightarrow> \<not> isLineTerminator c"
  shows "length (commentsOfLine alts lines filePath il) \<le> 1"
  using scanLine_plain [of "snd il" alts 0] assms by (simp add: commentsOfLine_def)

text \<open>
  C1. On the line \<open>// TODO: x FIXME: y\<close> with the prefixes \<open>TODO\<close> and \<open>FIXME\<close>,
  \<open>extractComments\<close> returns one comment, not two: its type is \<open>TODO\<close> and its content
  is \<open>x FIXME: y\<close>. The group \<open>(.*)\<close> takes the rest of the line, so the second turn of
  the loop starts at the end of the line and finds nothing.
\<close>

theorem multi_prefix_line_yields_one_comment:
  "extractComments (js ''// TODO: x FIXME: y'') (js ''f.ts'') [js ''TODO'', js ''FIXME'']
     = [\<lparr>type = js ''TODO'', content = js ''x FIXME: y'', file = js ''f.ts'', line = 1,
         message = js ''// TODO: x FIXME: y'', key = js ''Zi50czox''\<rparr>]"
  by code_simp

section \<open>Properties of the run\<close>

lemma processComments_sendAll:
  "processComments req existingIssues sent cs
     = sendAll req sent (map (requestFor existingIssues) cs)"
  by (induction cs arbitrary: sent) (simp_all add: Let_def split: option.splits)

lemma closeIssues_sendAll:
  "closeIssues req sent is = sendAll req sent (map (\<lambda>issue. CloseIssue (ident issue)) is)"
  by (induction "is" arbitrary: sent) (simp_all add: Let_def split: option.splits)

lemma sendAll_append:
  "sendAll req sent (rs @ rs')
     = (case sendAll req sent rs of
          (s, Some e) \<Rightarrow> (s, Some e)
        | (s, None) \<Rightarrow> sendAll req s rs')"
  by (induction rs arbitrary: sent) (simp_all split: option.splits)

lemma run_sendAll:
  assumes "fetchExistingIssues env = Inr existingIssues"
    and "sourceFiles env = Inr files"
    and "readAll (readFile env) (map trim (split 0x2C (commentPrefixes env))) [] files = Inr found"
  shows "run env = sendAll (request env) [] (plannedRequests existingIssues found)"
  using assms
  by (simp add: run_def plannedRequests_def sendAll_append processComments_sendAll
      closeIssues_sendAll)

lemma sendAll_ok:
  "(\<And>k. k < length rs \<Longrightarrow> req (sent @ take k rs) (rs ! k) = None)
     \<Longrightarrow> sendAll req sent rs = (sent @ rs, None)"
proof (induction rs arbitrary: sent)
  case Nil
  then show ?case by simp
next
  case (Cons r rs)
  from Cons.prems [of 0] have r: "req sent r = None" by simp
  have "sendAll req (sent @ [r]) rs = ((sent @ [r]) @ rs, None)"
  proof (rule Cons.IH)
    fix k assume "k < length rs"
    with Cons.prems [of "Suc k"] show "req ((sent @ [r]) @ take k rs) (rs ! k) = None" by simp
  qed
  with r show ?case by simp
qed

lemma sendAll_fail:
  "k < length rs \<Longrightarrow> (\<And>j. j < k \<Longrightarrow> req (sent @ take j rs) (rs ! j) = None)
     \<Longrightarrow> req (sent @ take k rs) (rs ! k) = Some e
     \<Longrightarrow> sendAll req sent rs = (sent @ take (Suc k) rs, Some e)"
proof (induction rs arbitrary: sent k)
  case Nil
  then show ?case by simp
next
  case (Cons r rs)
  show ?case
  proof (cases k)
    case 0
    with Cons.prems(3) show ?thesis by simp
  next
    case (Suc k')
    from Cons.prems(2) [of 0] Suc have r: "req sent r = None" by simp
    have "sendAll req (sent @ [r]) rs = ((sent @ [r]) @ take (Suc k') rs, Some e)"
    proof (rule Cons.IH)
      show "k' < length rs" using Cons.prems(1) Suc by simp
    next
      fix j assume "j < k'"
      with Cons.prems(2) [of "Suc j"] Suc
      show "req ((sent @ [r]) @ take j rs) (rs ! j) = None" by simp
    next
      from Cons.prems(3) Suc show "req ((sent @ [r]) @ take k' rs) (rs ! k') = Some e" by simp
    qed
    with r Suc show ?thesis by simp
  qed
qed

lemma run_without_error:
  assumes "fetchExistingIssues env = Inr existingIssues"
    and "sourceFiles env = Inr files"
    and "readAll (readFile env) (map trim (split 0x2C (commentPrefixes env))) [] files = Inr found"
    and "\<And>sent r. request env sent r = None"
  shows "run env = (plannedRequests existingIssues found, None)"
  using run_sendAll [OF assms(1-3)]
    sendAll_ok [of "plannedRequests existingIssues found" "request env" "[]"] assms(4)
  by simp

lemma readAll_Inl:
  "f \<in> set files \<Longrightarrow> rd f = Inl e \<Longrightarrow> \<exists>e'. readAll rd prefixes found files = Inl e'"
  by (induction files arbitrary: found) (auto split: sum.splits)





lemma readAll_Inl_source:
  "readAll rd prefixes found files = Inl e \<Longrightarrow> \<exists>f \<in> set files. rd f = Inl e"
  by (induction files arbitrary: found) (auto split: sum.splits)

section \<open>Properties of reconciliation\<close>

lemma find_key_iff:
  "find (\<lambda>issue. ikey issue = key comment) existingIssues \<noteq> None
     \<longleftrightarrow> key comment \<in> ikey ` set existingIssues"
proof
  assume "find (\<lambda>issue. ikey issue = key comment) existingIssues \<noteq> None"
  then obtain issue where "issue \<in> set existingIssues" "ikey issue = key comment"
    by (auto simp: find_None_iff)
  then show "key comment \<in> ikey ` set existingIssues" by force
next
  assume "key comment \<in> ikey ` set existingIssues"
  then obtain issue where "issue \<in> set existingIssues" "ikey issue = key comment"
    by force
  then show "find (\<lambda>issue. ikey issue = key comment) existingIssues \<noteq> None"
    by (auto simp: find_None_iff)
qed

lemma find_key_None:
  "find (\<lambda>issue. ikey issue = key comment) existingIssues = None
     \<longleftrightarrow> key comment \<notin> ikey ` set existingIssues"
  using find_key_iff [of comment existingIssues] by blast














section \<open>Issues without a key\<close>




section \<open>Errors\<close>

text \<open>
  C3, as the code has it, for plain prefixes. One \<open>try\<close> block holds the whole run. If a
  source file cannot be read, the run sends no request at all and reports the error of an
  unreadable file. If
  the request at position \<open>k\<close> of the planned requests is the first that throws, the run
  has sent exactly the requests up to and including that one, sends none of the later ones,
  and reports that one error.
\<close>

theorem run_aborts_at_first_error:
  assumes "fetchExistingIssues env = Inr existingIssues"
    and "sourceFiles env = Inr files"
    and "list_all plainPrefix (map trim (split 0x2C (commentPrefixes env)))"
  shows "(\<forall>f e. f \<in> set files \<longrightarrow> readFile env f = Inl e \<longrightarrow>
            (\<exists>f' e'. f' \<in> set files \<and> readFile env f' = Inl e' \<and> run env = ([], Some e')))
         \<and> (\<forall>foundComments k e.
               readAll (readFile env) (map trim (split 0x2C (commentPrefixes env))) [] files
                 = Inr foundComments \<longrightarrow>
               k < length (plannedRequests existingIssues foundComments) \<longrightarrow>
               (\<forall>j<k. request env (take j (plannedRequests existingIssues foundComments))
                         (plannedRequests existingIssues foundComments ! j) = None) \<longrightarrow>
               request env (take k (plannedRequests existingIssues foundComments))
                 (plannedRequests existingIssues foundComments ! k) = Some e \<longrightarrow>
               run env = (take (Suc k) (plannedRequests existingIssues foundComments), Some e))"
proof (intro conjI allI impI)
  fix f e
  assume f: "f \<in> set files" "readFile env f = Inl e"
  from readAll_Inl [of f files "readFile env" e, OF f] obtain e'
    where e': "readAll (readFile env) (map trim (split 0x2C (commentPrefixes env))) [] files
                 = Inl e'"
    by blast
  from readAll_Inl_source [OF e'] obtain f' where "f' \<in> set files" "readFile env f' = Inl e'"
    by blast
  moreover from assms(1,2) e' have "run env = ([], Some e')"
    by (simp add: run_def)
  ultimately show "\<exists>f' e'. f' \<in> set files \<and> readFile env f' = Inl e' \<and> run env = ([], Some e')"
    by blast
next
  fix foundComments k e
  assume found: "readAll (readFile env) (map trim (split 0x2C (commentPrefixes env))) [] files
                 = Inr foundComments"
    and k: "k < length (plannedRequests existingIssues foundComments)"
    and ok: "\<forall>j<k. request env (take j (plannedRequests existingIssues foundComments))
                         (plannedRequests existingIssues foundComments ! j) = None"
    and fail: "request env (take k (plannedRequests existingIssues foundComments))
                 (plannedRequests existingIssues foundComments ! k) = Some e"
  from sendAll_fail [of k "plannedRequests existingIssues foundComments" "request env" "[]" e]
    k ok fail
  have "sendAll (request env) [] (plannedRequests existingIssues foundComments)
          = (take (Suc k) (plannedRequests existingIssues foundComments), Some e)"
    by simp
  with run_sendAll [OF assms(1,2) found]
  show "run env = (take (Suc k) (plannedRequests existingIssues foundComments), Some e)"
    by simp
qed

theorem run_aborts_at_first_error_witness:
  "list_all plainPrefix (map trim (split 0x2C (commentPrefixes unreadableEnv)))
   \<and> list_all plainPrefix (map trim (split 0x2C (commentPrefixes failingEnv)))
   \<and> (\<exists>f' e'. f' \<in> set [js ''missing.ts'', js ''g.ts''] \<and> readFile unreadableEnv f' = Inl e'
       \<and> run unreadableEnv = ([], Some e'))
   \<and> run failingEnv
       = (take (Suc 0) (plannedRequests [sampleForeignIssue] [sampleTodo, sampleFixme]),
          Some (Error (js ''Bad credentials'')))"
proof -
  have fu: "fetchExistingIssues unreadableEnv = Inr [sampleForeignIssue]"
    by (simp add: fetchExistingIssues_def unreadableEnv_def sampleForeignIssue_def)
  have su: "sourceFiles unreadableEnv = Inr [js ''missing.ts'', js ''g.ts'']"
    by (simp add: unreadableEnv_def)
  have pu: "list_all plainPrefix (map trim (split 0x2C (commentPrefixes unreadableEnv)))"
    by code_simp
  have pf: "list_all plainPrefix (map trim (split 0x2C (commentPrefixes failingEnv)))"
    by code_simp
  have mu: "js ''missing.ts'' \<in> set [js ''missing.ts'', js ''g.ts'']" by simp
  have ru: "readFile unreadableEnv (js ''missing.ts'') = Inl (Error (js ''ENOENT''))"
    by code_simp
  have ff: "fetchExistingIssues failingEnv = Inr [sampleForeignIssue]"
    by (simp add: fetchExistingIssues_def failingEnv_def sampleForeignIssue_def)
  have sf: "sourceFiles failingEnv = Inr [js ''g.ts'']"
    by (simp add: failingEnv_def)
  have rf: "readAll (readFile failingEnv) (map trim (split 0x2C (commentPrefixes failingEnv)))
              [] [js ''g.ts''] = Inr [sampleTodo, sampleFixme]"
    by code_simp
  have lf: "0 < length (plannedRequests [sampleForeignIssue] [sampleTodo, sampleFixme])"
    by (simp add: plannedRequests_def)
  have nf: "\<forall>j<0. request failingEnv
              (take j (plannedRequests [sampleForeignIssue] [sampleTodo, sampleFixme]))
              (plannedRequests [sampleForeignIssue] [sampleTodo, sampleFixme] ! j) = None"
    by simp
  have qf: "request failingEnv
              (take 0 (plannedRequests [sampleForeignIssue] [sampleTodo, sampleFixme]))
              (plannedRequests [sampleForeignIssue] [sampleTodo, sampleFixme] ! 0)
            = Some (Error (js ''Bad credentials''))"
    by (simp add: failingEnv_def)
  from run_aborts_at_first_error [OF fu su pu] mu ru
  have "\<exists>f' e'. f' \<in> set [js ''missing.ts'', js ''g.ts''] \<and> readFile unreadableEnv f' = Inl e'
       \<and> run unreadableEnv = ([], Some e')"
    by blast
  moreover from run_aborts_at_first_error [OF ff sf pf] rf lf nf qf
  have "run failingEnv
       = (take (Suc 0) (plannedRequests [sampleForeignIssue] [sampleTodo, sampleFixme]),
          Some (Error (js ''Bad credentials'')))"
    by blast
  ultimately show ?thesis using pu pf by blast
qed

text \<open>
  C3 as stated fails: when the first of three planned requests throws, the other two are
  never sent and the one error is reported; when the first of two source files cannot be
  read, the second, readable one is not processed and no request is sent.
\<close>

theorem first_error_aborts_run:
  "plannedRequests [sampleForeignIssue] [sampleTodo, sampleFixme]
     = [CreateIssue (fst (generateIssueContent sampleTodo)) (snd (generateIssueContent sampleTodo)),
        CreateIssue (fst (generateIssueContent sampleFixme)) (snd (generateIssueContent sampleFixme)),
        CloseIssue 7]
   \<and> readAll (readFile failingEnv) (map trim (split 0x2C (commentPrefixes failingEnv))) []
         [js ''g.ts''] = Inr [sampleTodo, sampleFixme]
   \<and> run failingEnv
       = ([CreateIssue (fst (generateIssueContent sampleTodo))
             (snd (generateIssueContent sampleTodo))],
          Some (Error (js ''Bad credentials'')))
   \<and> readFile unreadableEnv (js ''g.ts'') = Inr sampleFile2
   \<and> run unreadableEnv = ([], Some (Error (js ''ENOENT'')))"
  by code_simp

section \<open>The key marker\<close>

text \<open>
  When \<open>Key: \<close> does not occur in the description before the end of the marker line, the
  key of an extracted comment is parsed back from the description.
\<close>

lemma description_split:
  "snd (generateIssueContent comment) = beforeKey comment @ [0x0A] @ js ''Key: '' @ key comment"
  by (simp add: generateIssueContent_def beforeKey_def)

lemma take_le_one: "j \<le> 1 \<Longrightarrow> take j (x # ys) = take j [x]"
  by (cases j) simp_all

lemma matchKey_append:
  "matchKey (xs @ [0x3D]) = None \<Longrightarrow> matchKey (xs @ 0x3D # 0x0A # js ''Key: '' @ k)
     = Some (takeWhile (\<lambda>c. \<not> isLineTerminator c) k)"
proof (induction xs)
  case Nil
  then show ?case by (simp add: js_def)
next
  case (Cons c cs)
  from Cons.prems have ne: "take 5 ((c # cs) @ [0x3D]) \<noteq> js ''Key: ''"
    and rest: "matchKey (cs @ [0x3D]) = None"
    by (simp_all split: if_splits)
  define L where "L = (c # cs) @ 0x3D # 0x0A # js ''Key: '' @ k"
  define n where "n = length (c # cs)"
  have "take 5 L \<noteq> js ''Key: ''"
  proof (cases "5 \<le> n + 1")
    case True
    then have "5 - n \<le> 1" by simp
    then have "take (5 - n) (0x3D # 0x0A # js ''Key: '' @ k) = take (5 - n) [0x3D :: jschar]"
      by (rule take_le_one)
    then have "take 5 L = take 5 ((c # cs) @ [0x3D])"
      unfolding L_def n_def take_append by (simp only:)
    with ne show ?thesis by simp
  next
    case False
    then have n: "n < 5" by simp
    have a: "L ! n = 0x3D"
      unfolding L_def n_def by (rule nth_append_length)
    have b: "take 5 L ! n = L ! n"
      using n by (rule nth_take)
    have d: "js ''Key: '' ! n \<in> set (js ''Key: '')"
      using n by (intro nth_mem) (simp add: js_def)
    show ?thesis
    proof
      assume "take 5 L = js ''Key: ''"
      with a b d have "(0x3D :: jschar) \<in> set (js ''Key: '')" by metis
      then show False by (simp add: js_def)
    qed
  qed
  then have "matchKey L = matchKey (cs @ 0x3D # 0x0A # js ''Key: '' @ k)"
    unfolding L_def by simp
  with Cons.IH [OF rest] show ?case unfolding L_def by simp
qed

lemma sextet_in_alphabet: "sextet n \<in> set base64Alphabet"
  unfolding sextet_def by (rule nth_mem) (simp add: base64Alphabet_def js_def)

lemma alphabet_plain: "c \<in> set base64Alphabet \<Longrightarrow> \<not> isLineTerminator c"
  by (auto simp: base64Alphabet_def js_def isLineTerminator_def)

lemma sextet_plain: "\<not> isLineTerminator (sextet n)"
  using sextet_in_alphabet by (rule alphabet_plain)

lemma base64_plain: "c \<in> set (base64 bs) \<Longrightarrow> \<not> isLineTerminator c"
proof (induction bs arbitrary: c rule: base64.induct)
  case 1
  then show ?case by simp
next
  case (2 a)
  then show ?case using sextet_plain by (auto simp: isLineTerminator_def)
next
  case (3 a b)
  then show ?case using sextet_plain by (auto simp: isLineTerminator_def)
next
  case (4 a b c' bs)
  then show ?case using sextet_plain by auto
qed

lemma key_round_trip_without_earlier_key:
  assumes "c \<in> set (extractComments fileContent filePath prefixes)"
    and "matchKey (beforeKey c) = None"
  shows "parseIssueKey (snd (generateIssueContent c)) = key c"
proof -
  from extractComments_elem [OF assms(1)] obtain i m
    where "c = makeComment (split 0x0A fileContent) filePath i m"
    by blast
  then have "key c = makeKey filePath i" by (simp add: makeComment_def)
  then have plain: "takeWhile (\<lambda>x. \<not> isLineTerminator x) (key c) = key c"
    by (intro takeWhile_all) (simp add: makeKey_def base64_plain)
  define xs where "xs = butlast (beforeKey c)"
  have b: "beforeKey c = xs @ [0x3D]"
    unfolding xs_def by (simp add: beforeKey_def js_def butlast_append)
  have "snd (generateIssueContent c) = xs @ 0x3D # 0x0A # js ''Key: '' @ key c"
    by (simp add: description_split b)
  moreover from assms(2) b have "matchKey (xs @ [0x3D]) = None" by simp
  ultimately have "matchKey (snd (generateIssueContent c))
                     = Some (takeWhile (\<lambda>x. \<not> isLineTerminator x) (key c))"
    by (simp add: matchKey_append)
  with plain show ?thesis by (simp add: parseIssueKey_def)
qed

text \<open>
  C4. For the comment extracted from the line \<open>// TODO: rename Key: field\<close> of the file
  \<open>h.ts\<close> the key is \<open>aC50czox\<close>, but \<open>parseIssueKey\<close> applied to the generated
  description returns \<open>field\<close>: the pattern finds the first \<open>Key: \<close> of the body, which is
  in the quoted content, before the marker line.
\<close>

theorem key_round_trip_fails:
  "extractComments keyMentionFile (js ''h.ts'') [js ''TODO''] = [keyMentionComment]
   \<and> key keyMentionComment = js ''aC50czox''
   \<and> parseIssueKey (snd (generateIssueContent keyMentionComment)) = js ''field''"
  by code_simp

text \<open>
  C5. Two runs over the same source tree, starting from an empty tracker, in which every
  request succeeds. The first run creates one issue. The second run does not find it under
  the comment's key, since the key parsed from its body is \<open>field\<close>: it creates the issue
  again and closes the issue numbered 1.
\<close>

theorem second_run_creates_and_closes:
  "runOn \<lparr>issues = [], nextNumber = 1\<rparr> (js ''TODO'') [(js ''h.ts'', keyMentionFile)]
     = ([CreateIssue (fst (generateIssueContent keyMentionComment))
           (snd (generateIssueContent keyMentionComment))],
        \<lparr>issues = [(\<lparr>number = 1, apiTitle = fst (generateIssueContent keyMentionComment),
                      apiBody = snd (generateIssueContent keyMentionComment)\<rparr>, True)],
         nextNumber = 2\<rparr>)
   \<and> fst (runOn \<lparr>issues = [(\<lparr>number = 1, apiTitle = fst (generateIssueContent keyMentionComment),
                      apiBody = snd (generateIssueContent keyMentionComment)\<rparr>, True)],
         nextNumber = 2\<rparr> (js ''TODO'') [(js ''h.ts'', keyMentionFile)])
     = [CreateIssue (fst (generateIssueContent keyMentionComment))
           (snd (generateIssueContent keyMentionComment)),
        CloseIssue 1]"
  by code_simp

end
